theory Spec2Isabelle
  imports Main "HOL-Library.Word"
begin

section \<open>Values exchanged between the worker and the surface\<close>

text \<open>
  The worker posts \<^verbatim>\<open>{status: "complete", output: JSON.parse(data)}\<close>. The value
  \<^verbatim>\<open>JSON.parse\<close> returns is a JSON document: null, a boolean, a number, a string, an
  array or a plain object. Numbers are IEEE doubles in the source; their type is left
  open here (\<open>'n\<close>) and their rendering as a string is a parameter wherever the code
  would format one. An object holds its members in document order; reading a member
  takes the last one of that name, as \<^verbatim>\<open>JSON.parse\<close> does with duplicate keys.
\<close>

type_synonym bytes = "8 word list"

datatype 'n json =
    JNull
  | JBool bool
  | JNum 'n
  | JStr string
  | JArr "'n json list"
  | JObj "(string \<times> 'n json) list"

text \<open>The field \<^verbatim>\<open>output\<close> is written \<open>output'\<close>, a keyword of Isabelle being in the way.\<close>

record 'n message =
  status :: string
  output' :: "'n json"

datatype js_error = TypeError

section \<open>The interactive surface (App)\<close>

text \<open>
  The component state: \<^verbatim>\<open>const [audioSrc, setAudioSrc] = useState('')\<close>,
  \<^verbatim>\<open>const [text, setText] = useState('')\<close>, and whether the drop zone carries the
  class \<^verbatim>\<open>border-blue-700\<close>. The field \<^verbatim>\<open>text\<close> is written \<open>text'\<close>.
\<close>

record app =
  audioSrc :: string
  text' :: string
  highlighted :: bool

definition initial_app :: app where
  "initial_app = \<lparr>audioSrc = '''', text' = '''', highlighted = False\<rparr>"

text \<open>
  A drop event, as \<^verbatim>\<open>handleDrop\<close> reads it: \<^verbatim>\<open>e.dataTransfer.getData("text/uri-list")\<close>
  (the empty string when the drag carries no such data) and \<^verbatim>\<open>e.dataTransfer.files\<close>.
  The type of a file is left open; \<^verbatim>\<open>URL.createObjectURL\<close> is a parameter.
\<close>

record 'f drop_event =
  uri_list :: string
  files :: "'f list"

definition handleDrop :: "('f \<Rightarrow> string) \<Rightarrow> app \<Rightarrow> 'f drop_event \<Rightarrow> app" where
  "handleDrop createObjectURL st e =
     (let st1 = st\<lparr>highlighted := False\<rparr>;
          url = uri_list e
      in case files e of
           f # _ \<Rightarrow> st1\<lparr>audioSrc := createObjectURL f\<rparr>
         | [] \<Rightarrow> if url \<noteq> '''' then st1\<lparr>audioSrc := url\<rparr> else st1)"

subsection \<open>Reading a property, converting to a string, joining an array\<close>

text \<open>
  \<^verbatim>\<open>v.k\<close> for a value that may be \<^verbatim>\<open>undefined\<close> (\<open>None\<close>). Reading a property of
  \<^verbatim>\<open>undefined\<close> or \<^verbatim>\<open>null\<close> throws a TypeError; an object gives its member of that
  name or \<^verbatim>\<open>undefined\<close>; a boolean, a number, a string and an array give
  \<^verbatim>\<open>undefined\<close>. The last two cases hold for the names the code reads, \<^verbatim>\<open>dr\<close> and
  \<^verbatim>\<open>text\<close>, which no prototype defines.
\<close>

fun get_property :: "string \<Rightarrow> 'n json option \<Rightarrow> js_error + 'n json option" where
  "get_property k None = Inl TypeError"
| "get_property k (Some JNull) = Inl TypeError"
| "get_property k (Some (JObj kvs)) = Inr (map_of (rev kvs) k)"
| "get_property k (Some v) = Inr None"

text \<open>Running a callback over an array stops at the first element where it throws.\<close>

fun collect :: "('e + 'a) list \<Rightarrow> 'e + 'a list" where
  "collect [] = Inr []"
| "collect (r # rs) =
     (case r of
        Inl e \<Rightarrow> Inl e
      | Inr x \<Rightarrow> (case collect rs of Inl e \<Rightarrow> Inl e | Inr xs \<Rightarrow> Inr (x # xs)))"

fun join_strings :: "string \<Rightarrow> string list \<Rightarrow> string" where
  "join_strings sep [] = ''''"
| "join_strings sep [s] = s"
| "join_strings sep (s # t # ts) = s @ sep @ join_strings sep (t # ts)"

text \<open>
  \<^verbatim>\<open>String(v)\<close> as \<^verbatim>\<open>Array.prototype.join\<close> applies it to an element that is neither
  \<^verbatim>\<open>undefined\<close> nor \<^verbatim>\<open>null\<close>. An array converts by joining its elements with a comma,
  \<^verbatim>\<open>undefined\<close> and \<^verbatim>\<open>null\<close> elements giving the empty string. A plain object gives
  \<^verbatim>\<open>[object Object]\<close>, unless it has a member \<^verbatim>\<open>toString\<close> of its own: a JSON value is
  never callable, \<^verbatim>\<open>valueOf\<close> returns the object, and the conversion throws.
\<close>

fun to_string :: "('n \<Rightarrow> string) \<Rightarrow> 'n json \<Rightarrow> js_error + string" where
  "to_string fmt JNull = Inr ''null''"
| "to_string fmt (JBool b) = Inr (if b then ''true'' else ''false'')"
| "to_string fmt (JNum n) = Inr (fmt n)"
| "to_string fmt (JStr s) = Inr s"
| "to_string fmt (JArr vs) =
     (case collect (map (\<lambda>v. case v of JNull \<Rightarrow> Inr '''' | _ \<Rightarrow> to_string fmt v) vs) of
        Inl e \<Rightarrow> Inl e
      | Inr ss \<Rightarrow> Inr (join_strings '','' ss))"
| "to_string fmt (JObj kvs) =
     (if ''toString'' \<in> fst ` set kvs then Inl TypeError else Inr ''[object Object]'')"

definition element_string :: "('n \<Rightarrow> string) \<Rightarrow> 'n json option \<Rightarrow> js_error + string" where
  "element_string fmt x =
     (case x of
        None \<Rightarrow> Inr ''''
      | Some JNull \<Rightarrow> Inr ''''
      | Some v \<Rightarrow> to_string fmt v)"

definition join :: "('n \<Rightarrow> string) \<Rightarrow> string \<Rightarrow> 'n json option list \<Rightarrow> js_error + string" where
  "join fmt sep xs =
     (case collect (map (element_string fmt) xs) of
        Inl e \<Rightarrow> Inl e
      | Inr ss \<Rightarrow> Inr (join_strings sep ss))"

subsection \<open>onMessage\<close>

text \<open>
  \<^verbatim>\<open>_ => _.dr.text\<close>, the callback of \<^verbatim>\<open>output.map\<close>.
\<close>

definition segment_text :: "'n json \<Rightarrow> js_error + 'n json option" where
  "segment_text seg =
     (case get_property ''dr'' (Some seg) of
        Inl e \<Rightarrow> Inl e
      | Inr d \<Rightarrow> get_property ''text'' d)"

text \<open>
  \<^verbatim>\<open>if (status === "complete") { const text = output.map(_ => _.dr.text).join(" "); setText(text); }\<close>
  Only an array has a callable \<^verbatim>\<open>map\<close>: on any other JSON value the call throws.
  \<open>Inl\<close> is the listener throwing, before \<^verbatim>\<open>setText\<close> is reached.
\<close>

definition onMessage :: "('n \<Rightarrow> string) \<Rightarrow> app \<Rightarrow> 'n message \<Rightarrow> js_error + app" where
  "onMessage fmt st m =
     (if status m = ''complete'' then
        (case output' m of
           JArr segs \<Rightarrow>
             (case collect (map segment_text segs) of
                Inl e \<Rightarrow> Inl e
              | Inr ts \<Rightarrow>
                  (case join fmt '' '' ts of
                     Inl e \<Rightarrow> Inl e
                   | Inr t \<Rightarrow> Inr (st\<lparr>text' := t\<rparr>)))
         | _ \<Rightarrow> Inl TypeError)
      else Inr st)"

text \<open>The component state once the message event has been dispatched: a listener
  that throws has set nothing.\<close>

definition dispatch :: "('n \<Rightarrow> string) \<Rightarrow> app \<Rightarrow> 'n message \<Rightarrow> app" where
  "dispatch fmt st m = (case onMessage fmt st m of Inl e \<Rightarrow> st | Inr st' \<Rightarrow> st')"

subsection \<open>Well-formed segments\<close>

text \<open>
  A segment as the engine emits it and as the type of \<^verbatim>\<open>onMessage\<close> declares it,
  \<^verbatim>\<open>{dr: {text: string}}\<close>: an object whose member \<^verbatim>\<open>dr\<close> is an object whose member
  \<^verbatim>\<open>text\<close> is a string. Either object may have other members.
\<close>

fun member :: "'n json \<Rightarrow> string \<Rightarrow> 'n json option" where
  "member (JObj kvs) k = map_of (rev kvs) k"
| "member v k = None"

definition has_text :: "'n json \<Rightarrow> string \<Rightarrow> bool" where
  "has_text seg t =
     (case member seg ''dr'' of
        None \<Rightarrow> False
      | Some d \<Rightarrow> member d ''text'' = Some (JStr t))"

section \<open>The worker\<close>

subsection \<open>The world outside the handler\<close>

text \<open>
  A promise is the value it settles to: \<open>Some\<close> when it resolves, \<open>None\<close> when it
  rejects. \<^verbatim>\<open>fetch\<close> rejects on a network failure only; a response of any HTTP status
  resolves it. \<^verbatim>\<open>arrayBuffer()\<close> is the promise of the body's bytes.
\<close>

datatype response = Response (http_status: nat) (arrayBuffer: "bytes option")

text \<open>An instance of \<^verbatim>\<open>Decoder\<close>: \<^verbatim>\<open>decode\<close> returns a string or throws (\<open>None\<close>).\<close>

datatype engine = Engine (decode: "bytes \<Rightarrow> string option")

datatype js_arg = ABool bool | ANull

text \<open>
  What one invocation of the listener meets: what \<^verbatim>\<open>fetch(url)\<close> settles to for a
  model asset (line 17) and for the audio (line 36), whether \<^verbatim>\<open>init()\<close> resolves,
  what \<^verbatim>\<open>new Decoder(...)\<close> gives (\<open>None\<close> when it throws; an argument is \<open>None\<close>
  when it is \<^verbatim>\<open>undefined\<close>), and \<^verbatim>\<open>JSON.parse\<close> (\<open>None\<close> when it throws).
\<close>

record 'n world =
  fetch_model :: "string \<Rightarrow> response option"
  fetch_audio :: "string \<Rightarrow> response option"
  init :: bool
  new_Decoder ::
    "bytes option \<Rightarrow> bytes option \<Rightarrow> bytes option \<Rightarrow> bytes option \<Rightarrow> js_arg list \<Rightarrow> engine option"
  JSON_parse :: "string \<Rightarrow> 'n json option"

text \<open>\<^verbatim>\<open>event.data\<close> of a message from the surface: \<^verbatim>\<open>{ audioSrc }\<close>.\<close>

record decode_request =
  data_audioSrc :: string

definition model :: "string list" where
  "model =
     [''https://huggingface.co/openai/whisper-tiny/resolve/main/model.safetensors'',
      ''model/tokenizer.json'',
      ''model/config.json'',
      ''model/mel_filters.safetensors'']"

subsection \<open>Effects and failures\<close>

text \<open>The calls the handler makes, in the order it makes them, and how it ends.\<close>

datatype error =
    ModelFetchRejected
  | ModelBodyRejected
  | InitRejected
  | DecoderThrew
  | AudioFetchRejected
  | AudioBodyRejected
  | DecodeThrew
  | ParseThrew

datatype 'n event =
    FetchModel string
  | ReadModelBody response
  | InitCalled
  | NewDecoder "bytes option" "bytes option" "bytes option" "bytes option" "js_arg list"
  | FetchAudio string
  | ReadAudioBody response
  | DecodeCalled bytes
  | PostMessage "'n message"
  | Unhandled error

text \<open>\<^verbatim>\<open>await Promise.all(ps)\<close>: every value in order, or a rejection if any rejects.\<close>

fun promise_all :: "'a option list \<Rightarrow> 'a list option" where
  "promise_all [] = Some []"
| "promise_all (p # ps) =
     (case p of
        None \<Rightarrow> None
      | Some x \<Rightarrow> (case promise_all ps of None \<Rightarrow> None | Some xs \<Rightarrow> Some (x # xs)))"

text \<open>A position of the array destructuring \<^verbatim>\<open>const [weights, tokenizer, config, mel_filters] = ...\<close>.\<close>

definition element :: "'a list \<Rightarrow> nat \<Rightarrow> 'a option" where
  "element xs i = (if i < length xs then Some (xs ! i) else None)"

subsection \<open>The listener, one synchronous stretch at a time\<close>

text \<open>
  The listener is an \<^verbatim>\<open>async function\<close>: it runs until an \<^verbatim>\<open>await\<close>, returns to the
  event loop, and is resumed when the awaited promise has settled. A \<open>stage\<close> is where
  an invocation is suspended, with the promise it awaits and the variables it still
  needs.
\<close>

datatype stage =
    Received decode_request
  | AwaitResponses decode_request "response option list"
  | AwaitBuffers decode_request "bytes option list"
  | AwaitInit decode_request "bytes list"
  | AwaitAudio engine "response option"
  | AwaitAudioBuffer engine "bytes option"
  | Finished

text \<open>
  \<open>resume urls w s\<close> runs the invocation from stage \<open>s\<close> to its next \<^verbatim>\<open>await\<close>, to its
  end, or to the throw that rejects its promise. \<open>urls\<close> is the constant \<^verbatim>\<open>model\<close>.
  There are six stretches: line 17 issues the fetches; line 18 asks each response for
  its body; lines 20 and 21 wrap the buffers and call \<^verbatim>\<open>init\<close>; lines 23 to 36 construct
  the engine and issue the audio fetch; line 36 asks the audio response for its body;
  lines 35 to 42 wrap the audio, and \<^verbatim>\<open>instance.decode\<close>, \<^verbatim>\<open>JSON.parse\<close> and
  \<^verbatim>\<open>self.postMessage\<close> follow with no \<^verbatim>\<open>await\<close> between them.
\<close>

fun resume :: "string list \<Rightarrow> 'n world \<Rightarrow> stage \<Rightarrow> 'n event list \<times> (error + stage)" where
  "resume urls w (Received r) =
     (map FetchModel urls, Inr (AwaitResponses r (map (fetch_model w) urls)))"
| "resume urls w (AwaitResponses r ps) =
     (case promise_all ps of
        None \<Rightarrow> ([], Inl ModelFetchRejected)
      | Some rs \<Rightarrow> (map ReadModelBody rs, Inr (AwaitBuffers r (map arrayBuffer rs))))"
| "resume urls w (AwaitBuffers r ps) =
     (case promise_all ps of
        None \<Rightarrow> ([], Inl ModelBodyRejected)
      | Some bufs \<Rightarrow> ([InitCalled], Inr (AwaitInit r bufs)))"
| "resume urls w (AwaitInit r bufs) =
     (if \<not> init w then ([], Inl InitRejected)
      else
        let weights = element bufs 0; tokenizer = element bufs 1;
            config = element bufs 2; mel_filters = element bufs 3;
            args = [ABool False, ABool True, ABool True, ANull, ANull];
            called = NewDecoder weights tokenizer mel_filters config args
        in case new_Decoder w weights tokenizer mel_filters config args of
             None \<Rightarrow> ([called], Inl DecoderThrew)
           | Some instance \<Rightarrow>
               ([called, FetchAudio (data_audioSrc r)],
                Inr (AwaitAudio instance (fetch_audio w (data_audioSrc r)))))"
| "resume urls w (AwaitAudio instance p) =
     (case p of
        None \<Rightarrow> ([], Inl AudioFetchRejected)
      | Some resp \<Rightarrow> ([ReadAudioBody resp], Inr (AwaitAudioBuffer instance (arrayBuffer resp))))"
| "resume urls w (AwaitAudioBuffer instance p) =
     (case p of
        None \<Rightarrow> ([], Inl AudioBodyRejected)
      | Some audio \<Rightarrow>
          (case decode instance audio of
             None \<Rightarrow> ([DecodeCalled audio], Inl DecodeThrew)
           | Some data \<Rightarrow>
               (case JSON_parse w data of
                  None \<Rightarrow> ([DecodeCalled audio], Inl ParseThrew)
                | Some out \<Rightarrow>
                    ([DecodeCalled audio, PostMessage \<lparr>status = ''complete'', output' = out\<rparr>],
                     Inr Finished))))"
| "resume urls w Finished = ([], Inr Finished)"

text \<open>\<open>k\<close> stretches in a row, nothing else running in between.\<close>

fun stretches :: "nat \<Rightarrow> string list \<Rightarrow> 'n world \<Rightarrow> stage \<Rightarrow> 'n event list \<times> (error + stage)" where
  "stretches 0 urls w s = ([], Inr s)"
| "stretches (Suc k) urls w s =
     (case resume urls w s of
        (es, Inl e) \<Rightarrow> (es, Inl e)
      | (es, Inr s') \<Rightarrow> (case stretches k urls w s' of (es', r) \<Rightarrow> (es @ es', r)))"

text \<open>
  One invocation from the message to its end: six stretches. A throw is not caught
  anywhere in the handler, so it rejects the promise the listener returned, which
  nothing handles.
\<close>

definition outcome :: "'n world \<Rightarrow> decode_request \<Rightarrow> 'n event list \<times> (error + stage)" where
  "outcome w r = stretches 6 model w (Received r)"

definition listener :: "'n world \<Rightarrow> decode_request \<Rightarrow> 'n event list" where
  "listener w r =
     (case outcome w r of
        (es, Inl e) \<Rightarrow> es @ [Unhandled e]
      | (es, Inr s) \<Rightarrow> es)"

text \<open>The worker has no state of its own: a run of requests handled one after the
  other, each with the world it meets, is the handler's effects in a row.\<close>

definition worker :: "('n world \<times> decode_request) list \<Rightarrow> 'n event list" where
  "worker reqs = concat (map (\<lambda>(w, r). listener w r) reqs)"

text \<open>What a trace shows of the things the claims speak of.\<close>

fun posted :: "'n event list \<Rightarrow> 'n message list" where
  "posted [] = []"
| "posted (PostMessage m # es) = m # posted es"
| "posted (e # es) = posted es"

fun model_fetches :: "'n event list \<Rightarrow> string list" where
  "model_fetches [] = []"
| "model_fetches (FetchModel u # es) = u # model_fetches es"
| "model_fetches (e # es) = model_fetches es"

fun constructions :: "'n event list \<Rightarrow> nat" where
  "constructions [] = 0"
| "constructions (NewDecoder a b c d f # es) = Suc (constructions es)"
| "constructions (e # es) = constructions es"

text \<open>
  Lines 21 to 42 read in one piece, for an invocation that nothing interrupts: what
  follows \<^verbatim>\<open>await init()\<close> being reached with the four buffers.
\<close>

definition from_init :: "'n world \<Rightarrow> decode_request \<Rightarrow> bytes list \<Rightarrow> 'n event list" where
  "from_init w r bufs =
     (if \<not> init w then [Unhandled InitRejected]
      else
        let weights = element bufs 0; tokenizer = element bufs 1;
            config = element bufs 2; mel_filters = element bufs 3;
            args = [ABool False, ABool True, ABool True, ANull, ANull]
        in NewDecoder weights tokenizer mel_filters config args #
           (case new_Decoder w weights tokenizer mel_filters config args of
              None \<Rightarrow> [Unhandled DecoderThrew]
            | Some instance \<Rightarrow>
                FetchAudio (data_audioSrc r) #
                (case fetch_audio w (data_audioSrc r) of
                   None \<Rightarrow> [Unhandled AudioFetchRejected]
                 | Some resp \<Rightarrow>
                     ReadAudioBody resp #
                     (case arrayBuffer resp of
                        None \<Rightarrow> [Unhandled AudioBodyRejected]
                      | Some audio \<Rightarrow>
                          DecodeCalled audio #
                          (case decode instance audio of
                             None \<Rightarrow> [Unhandled DecodeThrew]
                           | Some data \<Rightarrow>
                               (case JSON_parse w data of
                                  None \<Rightarrow> [Unhandled ParseThrew]
                                | Some out \<Rightarrow>
                                    [PostMessage \<lparr>status = ''complete'', output' = out\<rparr>]))))))"

subsection \<open>The surface behind the worker\<close>

text \<open>The component state after the messages of a trace have been dispatched to
  \<^verbatim>\<open>onMessage\<close>, in the order they were posted.\<close>

definition surface_after :: "('n \<Rightarrow> string) \<Rightarrow> app \<Rightarrow> 'n event list \<Rightarrow> app" where
  "surface_after fmt st es = foldl (dispatch fmt) st (posted es)"

subsection \<open>Several invocations in flight\<close>

text \<open>
  Nothing in the handler waits for an earlier invocation: a message that arrives while
  one is suspended at an \<^verbatim>\<open>await\<close> starts another. The event loop runs one stretch at a
  time; \<open>event_loop sched invs\<close> resumes the invocations in the order \<open>sched\<close> names them
  (an index with no invocation is skipped) and gives every call made, tagged with the
  index of the invocation that made it.
\<close>

definition resume_invocation ::
  "nat \<Rightarrow> ('n world \<times> stage) list \<Rightarrow> 'n event list \<times> ('n world \<times> stage) list" where
  "resume_invocation i invs =
     (if i < length invs then
        (case invs ! i of
           (w, s) \<Rightarrow>
             (case resume model w s of
                (es, Inl e) \<Rightarrow> (es @ [Unhandled e], invs[i := (w, Finished)])
              | (es, Inr s') \<Rightarrow> (es, invs[i := (w, s')])))
      else ([], invs))"

fun event_loop ::
  "nat list \<Rightarrow> ('n world \<times> stage) list \<Rightarrow> (nat \<times> 'n event) list" where
  "event_loop [] invs = []"
| "event_loop (i # sched) invs =
     map (Pair i) (fst (resume_invocation i invs)) @
     event_loop sched (snd (resume_invocation i invs))"

text \<open>
  \<open>waits seen tr\<close>: in \<open>tr\<close>, invocation 1 calls \<^verbatim>\<open>decode\<close> only after invocation 0 has
  posted its result (\<open>seen\<close>: it already has).
\<close>

fun waits :: "bool \<Rightarrow> (nat \<times> 'n event) list \<Rightarrow> bool" where
  "waits seen [] = True"
| "waits seen ((i, PostMessage m) # tr) = waits (seen \<or> i = 0) tr"
| "waits seen ((i, DecodeCalled a) # tr) = ((i = Suc 0 \<longrightarrow> seen) \<and> waits seen tr)"
| "waits seen (x # tr) = waits seen tr"

text \<open>
  \<open>decode_atomic tr\<close>: every call of \<^verbatim>\<open>decode\<close> in \<open>tr\<close> is followed at once by the same
  invocation's \<^verbatim>\<open>postMessage\<close> or by its rejection.
\<close>

fun ends_request :: "'n event \<Rightarrow> bool" where
  "ends_request (PostMessage m) = True"
| "ends_request (Unhandled e) = True"
| "ends_request x = False"

fun decode_atomic :: "(nat \<times> 'n event) list \<Rightarrow> bool" where
  "decode_atomic [] = True"
| "decode_atomic ((i, DecodeCalled a) # tr) =
     (case tr of
        [] \<Rightarrow> False
      | (j, e) # rest \<Rightarrow> j = i \<and> ends_request e \<and> decode_atomic tr)"
| "decode_atomic (x # tr) = decode_atomic tr"

section \<open>Concrete worlds\<close>

text \<open>
  A world in which every step succeeds: each asset answers with HTTP status \<open>code\<close> and
  one byte, the length of its location; the constructor succeeds when it is given four
  buffers; the engine returns a document that \<^verbatim>\<open>JSON.parse\<close> reads as \<open>payload\<close>.
\<close>

definition demo_engine :: engine where
  "demo_engine = Engine (\<lambda>audio. Some ''data'')"

definition demo_world :: "nat \<Rightarrow> unit json \<Rightarrow> unit world" where
  "demo_world code payload =
     \<lparr>fetch_model = (\<lambda>u. Some (Response code (Some [of_nat (length u)]))),
      fetch_audio = (\<lambda>u. Some (Response 200 (Some [82, 73, 70, 70]))),
      init = True,
      new_Decoder = (\<lambda>weights tokenizer mel_filters config args.
         case (weights, tokenizer, mel_filters, config) of
           (Some a, Some b, Some c, Some d) \<Rightarrow> Some demo_engine
         | _ \<Rightarrow> None),
      JSON_parse = (\<lambda>s. if s = ''data'' then Some payload else None)\<rparr>"

definition payload_dr :: "unit json" where
  "payload_dr = JArr [JObj [(''dr'', JObj [(''text'', JStr ''test'')])]]"

definition payload_result :: "unit json" where
  "payload_result = JArr [JObj [(''result'', JObj [(''text'', JStr ''test'')])]]"

definition demo_request :: decode_request where
  "demo_request = \<lparr>data_audioSrc = ''blob:audio''\<rparr>"

definition show_unit :: "unit \<Rightarrow> string" where
  "show_unit n = ''0''"

text \<open>A segment with the members the engine gives it beside the text.\<close>

definition demo_segment :: "string \<Rightarrow> unit json" where
  "demo_segment t =
     JObj [(''start'', JNum ()), (''duration'', JNum ()),
           (''dr'', JObj [(''tokens'', JArr []), (''text'', JStr t)])]"

text \<open>The same world with the audio fetch rejecting, and with the fetch of
  \<^verbatim>\<open>model/config.json\<close> rejecting.\<close>

definition no_audio :: "unit world" where
  "no_audio = (demo_world 200 payload_dr)\<lparr>fetch_audio := (\<lambda>u. None)\<rparr>"


text \<open>Two requests handled one after the other, and two requests both received
  before either has finished.\<close>

definition two_sequential :: "(unit world \<times> decode_request) list" where
  "two_sequential =
     [(demo_world 200 payload_dr, demo_request), (demo_world 200 payload_dr, demo_request)]"

definition two_in_flight :: "(unit world \<times> stage) list" where
  "two_in_flight =
     [(demo_world 200 payload_dr, Received demo_request),
      (demo_world 200 payload_dr, Received \<lparr>data_audioSrc = ''blob:short''\<rparr>)]"

text \<open>Both invocations advance in step until each awaits its audio; the audio of the
  second arrives first.\<close>

definition second_audio_first :: "nat list" where
  "second_audio_first = [0, 1, 0, 1, 0, 1, 0, 1, 1, 1, 0, 0]"

section \<open>Facts about the model\<close>

subsection \<open>Promises and traces\<close>

lemma promise_all_map_Some: "promise_all (map Some xs) = Some xs"
  by (induction xs) simp_all

lemma promise_all_SomeD: "promise_all ps = Some xs \<Longrightarrow> ps = map Some xs"
proof (induction ps arbitrary: xs)
  case Nil
  then show ?case by simp
next
  case (Cons p ps)
  then show ?case by (auto split: option.splits)
qed


lemma posted_append: "posted (es @ fs) = posted es @ posted fs"
  by (induction es rule: posted.induct) simp_all

lemma model_fetches_append: "model_fetches (es @ fs) = model_fetches es @ model_fetches fs"
  by (induction es rule: model_fetches.induct) simp_all

lemma constructions_append: "constructions (es @ fs) = constructions es + constructions fs"
  by (induction es rule: constructions.induct) simp_all

lemma posted_calls:
  "posted (map FetchModel us) = []"
  "posted (map ReadModelBody rs) = []"
  by (induction us, simp_all) (induction rs, simp_all)

lemma model_fetches_calls:
  "model_fetches (map FetchModel us) = us"
  "model_fetches (map ReadModelBody rs) = []"
  by (induction us, simp_all) (induction rs, simp_all)

lemma constructions_calls:
  "constructions (map FetchModel us) = 0"
  "constructions (map ReadModelBody rs) = 0"
  by (induction us, simp_all) (induction rs, simp_all)

lemmas trace_simps =
  posted_append model_fetches_append constructions_append
  posted_calls model_fetches_calls constructions_calls

subsection \<open>The listener in one piece\<close>

text \<open>The six stretches of an invocation that nothing interrupts, read as the
  source is written.\<close>

lemma listener_unfold:
  "listener w r =
     map FetchModel model @
     (case promise_all (map (fetch_model w) model) of
        None \<Rightarrow> [Unhandled ModelFetchRejected]
      | Some rs \<Rightarrow>
          map ReadModelBody rs @
          (case promise_all (map arrayBuffer rs) of
             None \<Rightarrow> [Unhandled ModelBodyRejected]
           | Some bufs \<Rightarrow> InitCalled # from_init w r bufs))"
  by (simp add: listener_def outcome_def eval_nat_numeral from_init_def Let_def
        split: option.splits)

lemma worker_simps:
  "worker [] = []"
  "worker ((w, r) # reqs) = listener w r @ worker reqs"
  by (simp_all add: worker_def)

lemma model_fetches_listener: "model_fetches (listener w r) = model"
  by (simp add: listener_unfold trace_simps from_init_def Let_def split: option.splits)

lemma from_init_counts:
  "length (posted (from_init w r bufs)) \<le> constructions (from_init w r bufs)"
  "constructions (from_init w r bufs) \<le> 1"
  by (simp_all add: from_init_def Let_def split: option.splits)

lemma listener_counts:
  "length (posted (listener w r)) \<le> constructions (listener w r)"
  "constructions (listener w r) \<le> 1"
  using from_init_counts[of w r]
  by (simp_all add: listener_unfold trace_simps split: option.splits)

lemma stretches_Suc_last:
  "stretches (Suc k) urls w s =
     (case stretches k urls w s of
        (es, Inl e) \<Rightarrow> (es, Inl e)
      | (es, Inr s') \<Rightarrow> (case resume urls w s' of (es', x) \<Rightarrow> (es @ es', x)))"
proof (induction k arbitrary: s)
  case 0
  then show ?case by (simp split: prod.splits sum.splits)
next
  case (Suc k)
  show ?case
    apply (subst stretches.simps(2))
    apply (subst Suc)
    apply (simp split: prod.splits sum.splits)
    done
qed

text \<open>An invocation that reaches its last stretch with an engine and the audio bytes,
  and whose engine returns a document that parses, posts one message.\<close>

lemma listener_success:
  assumes "stretches 5 model w (Received r) = (es, Inr (AwaitAudioBuffer instance (Some audio)))"
    and "decode instance audio = Some data"
    and "JSON_parse w data = Some out"
  shows "listener w r =
           es @ [DecodeCalled audio, PostMessage \<lparr>status = ''complete'', output' = out\<rparr>]"
proof -
  have "stretches 6 model w (Received r) = stretches (Suc 5) model w (Received r)"
    by simp
  also have "\<dots> =
      (es @ [DecodeCalled audio, PostMessage \<lparr>status = ''complete'', output' = out\<rparr>],
       Inr Finished)"
    using assms by (subst stretches_Suc_last) simp
  finally show ?thesis
    by (simp add: listener_def outcome_def)
qed

lemma five_stretches:
  assumes "stretches 5 model w (Received r) = (es, Inr (AwaitAudioBuffer instance (Some audio)))"
  shows "posted es = [] \<and> constructions es = 1"
  using assms
  by (auto simp add: eval_nat_numeral trace_simps Let_def split: option.splits if_splits)

lemma posted_nil_if_audio_rejects:
  assumes "fetch_audio w (data_audioSrc r) = None"
  shows "posted (listener w r) = []"
  using assms
  by (simp add: listener_unfold trace_simps from_init_def Let_def split: option.splits)

lemma surface_after_nil: "posted es = [] \<Longrightarrow> surface_after fmt st es = st"
  by (simp add: surface_after_def)

lemma demo_five:
  "stretches 5 model (demo_world code p) (Received demo_request) =
     (map FetchModel model @
      [ReadModelBody (Response code (Some [73])), ReadModelBody (Response code (Some [20])),
       ReadModelBody (Response code (Some [17])), ReadModelBody (Response code (Some [29])),
       InitCalled,
       NewDecoder (Some [73]) (Some [20]) (Some [29]) (Some [17])
         [ABool False, ABool True, ABool True, ANull, ANull],
       FetchAudio ''blob:audio'',
       ReadAudioBody (Response 200 (Some [82, 73, 70, 70]))],
      Inr (AwaitAudioBuffer demo_engine (Some [82, 73, 70, 70])))"
  by (simp add: eval_nat_numeral model_def demo_world_def demo_request_def element_def)

lemma demo_decode: "decode demo_engine audio = Some ''data''"
  by (simp add: demo_engine_def)

lemma demo_parse: "JSON_parse (demo_world code p) ''data'' = Some p"
  by (simp add: demo_world_def)

lemma demo_listener:
  "listener (demo_world code p) demo_request =
     map FetchModel model @
      [ReadModelBody (Response code (Some [73])), ReadModelBody (Response code (Some [20])),
       ReadModelBody (Response code (Some [17])), ReadModelBody (Response code (Some [29])),
       InitCalled,
       NewDecoder (Some [73]) (Some [20]) (Some [29]) (Some [17])
         [ABool False, ABool True, ABool True, ANull, ANull],
       FetchAudio ''blob:audio'',
       ReadAudioBody (Response 200 (Some [82, 73, 70, 70])),
       DecodeCalled [82, 73, 70, 70],
       PostMessage \<lparr>status = ''complete'', output' = p\<rparr>]"
  using listener_success[OF demo_five demo_decode demo_parse] by simp

section \<open>The claims\<close>

text \<open>
  Claim C1, as amended. The worker keeps no engine and no assets between requests:
  every request handled fetches the four model assets again (a run of N requests
  issues the four fetches N times, in order), and every request that posts a result
  has constructed an engine of its own, so N requests that all succeed construct N
  engines. No request constructs more than one.
\<close>

theorem assets_and_engine_on_every_request:
  "model_fetches (worker reqs) = concat (map (\<lambda>x. model) reqs) \<and>
   length (posted (worker reqs)) \<le> constructions (worker reqs) \<and>
   constructions (worker reqs) \<le> length reqs"
proof (induction reqs)
  case Nil
  then show ?case by (simp add: worker_simps)
next
  case (Cons a reqs)
  obtain w r where a: "a = (w, r)" by (cases a)
  from Cons listener_counts[of w r] show ?case
    by (simp add: a worker_simps trace_simps model_fetches_listener)
qed

theorem assets_and_engine_on_every_request_witness:
  "model_fetches (worker two_sequential) = model @ model \<and>
   length (posted (worker two_sequential)) \<le> constructions (worker two_sequential) \<and>
   constructions (worker two_sequential) \<le> 2"
  using assets_and_engine_on_every_request[of two_sequential]
  by (simp add: two_sequential_def)

text \<open>Two requests that both succeed: the second fetches the assets and constructs
  an engine as the first did.\<close>

theorem engine_not_reused_counterexample:
  "model_fetches (worker two_sequential) = model @ model \<and>
   constructions (worker two_sequential) = 2 \<and>
   length (posted (worker two_sequential)) = 2"
  by (simp add: two_sequential_def worker_simps demo_listener trace_simps)




text \<open>
  Claim C3, as amended. For every decode request that reaches the engine with its
  audio and whose engine returns the payload \<^verbatim>\<open>[{dr:{text:"test"}}]\<close>, the worker posts
  one message of status \<^verbatim>\<open>complete\<close> carrying that payload, and the surface then shows
  the transcript \<^verbatim>\<open>test\<close>: the transcript is made of the \<^verbatim>\<open>text\<close> member of each entry's
  nested \<^verbatim>\<open>dr\<close> object.
\<close>

theorem dr_payload_shows_test:
  assumes "stretches 5 model w (Received r) = (es, Inr (AwaitAudioBuffer instance (Some audio)))"
    and "decode instance audio = Some data"
    and "JSON_parse w data = Some (JArr [JObj [(''dr'', JObj [(''text'', JStr ''test'')])]])"
  shows "posted (listener w r) =
           [\<lparr>status = ''complete'',
             output' = JArr [JObj [(''dr'', JObj [(''text'', JStr ''test'')])]]\<rparr>] \<and>
         text' (surface_after fmt st (listener w r)) = ''test''"
proof -
  have "posted (listener w r) =
          [\<lparr>status = ''complete'',
            output' = JArr [JObj [(''dr'', JObj [(''text'', JStr ''test'')])]]\<rparr>]"
    using listener_success[OF assms] five_stretches[OF assms(1)]
    by (simp add: trace_simps)
  then show ?thesis
    by (simp add: surface_after_def dispatch_def onMessage_def segment_text_def join_def
          element_string_def)
qed

theorem dr_payload_shows_test_witness:
  "decode demo_engine [82, 73, 70, 70] = Some ''data'' \<and>
   JSON_parse (demo_world 200 payload_dr) ''data'' =
     Some (JArr [JObj [(''dr'', JObj [(''text'', JStr ''test'')])]]) \<and>
   posted (listener (demo_world 200 payload_dr) demo_request) =
     [\<lparr>status = ''complete'',
       output' = JArr [JObj [(''dr'', JObj [(''text'', JStr ''test'')])]]\<rparr>] \<and>
   text' (surface_after show_unit initial_app (listener (demo_world 200 payload_dr) demo_request)) =
     ''test''"
proof -
  have d: "decode demo_engine [82, 73, 70, 70] = Some ''data''"
    by (rule demo_decode)
  have j: "JSON_parse (demo_world 200 payload_dr) ''data'' =
      Some (JArr [JObj [(''dr'', JObj [(''text'', JStr ''test'')])]])"
    by (simp add: demo_parse payload_dr_def)
  from dr_payload_shows_test[OF demo_five d j, of show_unit initial_app] d j
  show ?thesis by simp
qed

text \<open>The payload of the claim, \<^verbatim>\<open>[{result:{text:"test"}}]\<close>: the worker posts it with
  status \<^verbatim>\<open>complete\<close>, \<^verbatim>\<open>_.dr\<close> is \<^verbatim>\<open>undefined\<close>, \<^verbatim>\<open>onMessage\<close> throws and the surface
  keeps the empty transcript it had.\<close>

theorem result_payload_counterexample:
  "posted (listener (demo_world 200 payload_result) demo_request) =
     [\<lparr>status = ''complete'',
       output' = JArr [JObj [(''result'', JObj [(''text'', JStr ''test'')])]]\<rparr>] \<and>
   onMessage show_unit initial_app
     \<lparr>status = ''complete'',
      output' = JArr [JObj [(''result'', JObj [(''text'', JStr ''test'')])]]\<rparr> = Inl TypeError \<and>
   text' (surface_after show_unit initial_app
            (listener (demo_world 200 payload_result) demo_request)) = ''''"
proof -
  have p: "posted (listener (demo_world 200 payload_result) demo_request) =
      [\<lparr>status = ''complete'',
        output' = JArr [JObj [(''result'', JObj [(''text'', JStr ''test'')])]]\<rparr>]"
    by (simp add: demo_listener trace_simps payload_result_def)
  have t: "onMessage show_unit initial_app
      \<lparr>status = ''complete'',
       output' = JArr [JObj [(''result'', JObj [(''text'', JStr ''test'')])]]\<rparr> = Inl TypeError"
    by (simp add: onMessage_def segment_text_def)
  from p t show ?thesis
    by (simp add: surface_after_def dispatch_def initial_app_def)
qed

text \<open>Segments and their texts.\<close>

lemma get_property_member:
  "member v k = Some x \<Longrightarrow> get_property k (Some v) = Inr (Some x)"
  by (cases v) simp_all

lemma segment_text_has_text:
  assumes "has_text seg t"
  shows "segment_text seg = Inr (Some (JStr t))"
proof -
  from assms obtain d
    where "member seg ''dr'' = Some d" and "member d ''text'' = Some (JStr t)"
    by (auto simp: has_text_def split: option.splits)
  then show ?thesis
    by (simp add: segment_text_def get_property_member)
qed

lemma collect_segment_texts:
  "list_all2 has_text segs texts \<Longrightarrow>
   collect (map segment_text segs) = Inr (map (\<lambda>t. Some (JStr t)) texts)"
  by (induction segs texts rule: list_all2_induct) (simp_all add: segment_text_has_text)

lemma collect_element_strings:
  "collect (map (element_string fmt \<circ> (\<lambda>t. Some (JStr t))) texts) = Inr texts"
  by (induction texts) (simp_all add: element_string_def)

lemma has_text_demo_segment: "has_text (demo_segment t) t"
  by (simp add: has_text_def demo_segment_def)

text \<open>The library's own words for a joined list: the first string, then each later
  string with the separator before it.\<close>

lemma join_strings_concat:
  "join_strings sep (t # ts) = t @ concat (map ((@) sep) ts)"
  by (induction ts arbitrary: t) simp_all


text \<open>
  Claim C4. For every sequence of segments in a \<^verbatim>\<open>complete\<close> message, each an object
  whose \<^verbatim>\<open>dr.text\<close> is a string, the transcript set by \<^verbatim>\<open>onMessage\<close> is the texts joined
  with one space, in the order of the sequence: the empty string for the empty
  sequence, without an error, and otherwise the first text followed by each later text
  with exactly one space before it, so that no space leads or trails. The texts
  \<^verbatim>\<open>["Hello", "world"]\<close> give \<^verbatim>\<open>Hello world\<close> and \<^verbatim>\<open>["Hi"]\<close> gives \<^verbatim>\<open>Hi\<close>.
\<close>

theorem transcript_space_joined:
  assumes "list_all2 has_text segs texts"
  shows "onMessage fmt st \<lparr>status = ''complete'', output' = JArr segs\<rparr> =
           Inr (st\<lparr>text' :=
                  (case texts of
                     [] \<Rightarrow> ''''
                   | t # ts \<Rightarrow> t @ concat (map ((@) '' '') ts))\<rparr>) \<and>
         onMessage fmt st
           \<lparr>status = ''complete'',
            output' = JArr [JObj [(''dr'', JObj [(''text'', JStr ''Hello'')])],
                            JObj [(''dr'', JObj [(''text'', JStr ''world'')])]]\<rparr> =
           Inr (st\<lparr>text' := ''Hello world''\<rparr>) \<and>
         onMessage fmt st
           \<lparr>status = ''complete'',
            output' = JArr [JObj [(''dr'', JObj [(''text'', JStr ''Hi'')])]]\<rparr> =
           Inr (st\<lparr>text' := ''Hi''\<rparr>) \<and>
         onMessage fmt st \<lparr>status = ''complete'', output' = JArr []\<rparr> =
           Inr (st\<lparr>text' := ''''\<rparr>)"
proof -
  have general: "onMessage fmt st \<lparr>status = ''complete'', output' = JArr ss\<rparr> =
      Inr (st\<lparr>text' := (case ts of [] \<Rightarrow> '''' | t # ts' \<Rightarrow> t @ concat (map ((@) '' '') ts'))\<rparr>)"
    if "list_all2 has_text ss ts" for ss :: "'a json list" and ts
  proof -
    from that have "onMessage fmt st \<lparr>status = ''complete'', output' = JArr ss\<rparr> =
        Inr (st\<lparr>text' := join_strings '' '' ts\<rparr>)"
      by (simp add: onMessage_def collect_segment_texts join_def collect_element_strings)
    then show ?thesis
      by (cases ts) (simp_all only: join_strings_concat join_strings.simps list.case)
  qed
  have seg: "has_text (JObj [(''dr'', JObj [(''text'', JStr t)])] :: 'a json) t" for t
    by (simp add: has_text_def)
  have two: "list_all2 has_text
      [JObj [(''dr'', JObj [(''text'', JStr ''Hello'')])],
       JObj [(''dr'', JObj [(''text'', JStr ''world'')])] :: 'a json] [''Hello'', ''world'']"
    by (simp add: seg)
  have one: "list_all2 has_text [JObj [(''dr'', JObj [(''text'', JStr ''Hi'')])] :: 'a json] [''Hi'']"
    by (simp add: seg)
  have none: "list_all2 has_text ([] :: 'a json list) []"
    by simp
  from general[OF assms] general[OF two] general[OF one] general[OF none]
  show ?thesis by simp
qed

theorem transcript_space_joined_witness:
  "list_all2 has_text
     [demo_segment ''Hello'', demo_segment ''world'', demo_segment ''again'']
     [''Hello'', ''world'', ''again''] \<and>
   onMessage show_unit initial_app
     \<lparr>status = ''complete'',
      output' = JArr [demo_segment ''Hello'', demo_segment ''world'', demo_segment ''again'']\<rparr> =
     Inr (initial_app\<lparr>text' := ''Hello world again''\<rparr>) \<and>
   list_all2 has_text [demo_segment ''Hi''] [''Hi''] \<and>
   onMessage show_unit initial_app \<lparr>status = ''complete'', output' = JArr [demo_segment ''Hi'']\<rparr> =
     Inr (initial_app\<lparr>text' := ''Hi''\<rparr>) \<and>
   onMessage show_unit (initial_app\<lparr>text' := ''before''\<rparr>)
     \<lparr>status = ''complete'', output' = JArr ([] :: unit json list)\<rparr> =
     Inr (initial_app\<lparr>text' := ''''\<rparr>)"
proof -
  have three: "list_all2 has_text
      [demo_segment ''Hello'', demo_segment ''world'', demo_segment ''again'']
      [''Hello'', ''world'', ''again'']"
    by (simp add: has_text_demo_segment)
  have one: "list_all2 has_text [demo_segment ''Hi''] [''Hi'']"
    by (simp add: has_text_demo_segment)
  have none: "list_all2 has_text ([] :: unit json list) []"
    by simp
  from transcript_space_joined[OF three, of show_unit initial_app]
    transcript_space_joined[OF one, of show_unit initial_app]
    transcript_space_joined[OF none, of show_unit "initial_app\<lparr>text' := ''before''\<rparr>"]
    three one
  show ?thesis by simp
qed




text \<open>
  Claim C6. For every list of asset locations, the handler issues every fetch before
  it awaits any response (the fetches run concurrently, not one after the other),
  asks every response for its body only once all responses are there, and goes on to
  \<^verbatim>\<open>init\<close> only once all bodies are there; the buffers come in the order of the
  locations, the buffer at position \<open>i\<close> being the body fetched from location \<open>i\<close>. The
  load succeeds exactly when every fetch and every body read resolves.
\<close>

theorem assets_loaded_in_order:
  "(map (fetch_model w) urls = map Some rs \<and> map arrayBuffer rs = map Some bufs \<longrightarrow>
      stretches 3 urls w (Received r) =
        (map FetchModel urls @ map ReadModelBody rs @ [InitCalled], Inr (AwaitInit r bufs))) \<and>
   (stretches 3 urls w (Received r) = (es, Inr s) \<longrightarrow>
      (\<exists>rs bufs.
         map (fetch_model w) urls = map Some rs \<and> map arrayBuffer rs = map Some bufs \<and>
         es = map FetchModel urls @ map ReadModelBody rs @ [InitCalled] \<and>
         s = AwaitInit r bufs \<and>
         length bufs = length urls \<and>
         (\<forall>i<length urls.
            \<exists>resp. fetch_model w (urls ! i) = Some resp \<and> arrayBuffer resp = Some (bufs ! i))))"
proof (intro conjI impI)
  assume "map (fetch_model w) urls = map Some rs \<and> map arrayBuffer rs = map Some bufs"
  then show "stretches 3 urls w (Received r) =
      (map FetchModel urls @ map ReadModelBody rs @ [InitCalled], Inr (AwaitInit r bufs))"
    by (simp add: eval_nat_numeral promise_all_map_Some)
next
  assume run: "stretches 3 urls w (Received r) = (es, Inr s)"
  then obtain rs where rs: "promise_all (map (fetch_model w) urls) = Some rs"
    by (cases "promise_all (map (fetch_model w) urls)") (simp_all add: eval_nat_numeral)
  with run obtain bufs where bufs: "promise_all (map arrayBuffer rs) = Some bufs"
    by (cases "promise_all (map arrayBuffer rs)") (simp_all add: eval_nat_numeral)
  from rs have m1: "map (fetch_model w) urls = map Some rs"
    by (rule promise_all_SomeD)
  from bufs have m2: "map arrayBuffer rs = map Some bufs"
    by (rule promise_all_SomeD)
  from m1 have l1: "length rs = length urls"
    by (metis length_map)
  from m2 have l2: "length bufs = length rs"
    by (metis length_map)
  have pos: "\<exists>resp. fetch_model w (urls ! i) = Some resp \<and> arrayBuffer resp = Some (bufs ! i)"
    if "i < length urls" for i
  proof -
    from that l1 m1 have "fetch_model w (urls ! i) = Some (rs ! i)"
      by (metis nth_map)
    moreover from that l1 l2 m2 have "arrayBuffer (rs ! i) = Some (bufs ! i)"
      by (metis nth_map)
    ultimately show ?thesis by blast
  qed
  from run rs bufs
  have "es = map FetchModel urls @ map ReadModelBody rs @ [InitCalled]" "s = AwaitInit r bufs"
    by (simp_all add: eval_nat_numeral)
  with m1 m2 l1 l2 pos
  show "\<exists>rs bufs.
      map (fetch_model w) urls = map Some rs \<and> map arrayBuffer rs = map Some bufs \<and>
      es = map FetchModel urls @ map ReadModelBody rs @ [InitCalled] \<and>
      s = AwaitInit r bufs \<and>
      length bufs = length urls \<and>
      (\<forall>i<length urls.
         \<exists>resp. fetch_model w (urls ! i) = Some resp \<and> arrayBuffer resp = Some (bufs ! i))"
    by auto
qed

theorem assets_loaded_in_order_witness:
  "map (fetch_model (demo_world 200 payload_dr)) model =
     map Some [Response 200 (Some [73]), Response 200 (Some [20]),
               Response 200 (Some [17]), Response 200 (Some [29])] \<and>
   map arrayBuffer [Response 200 (Some [73]), Response 200 (Some [20]),
                    Response 200 (Some [17]), Response 200 (Some [29])] =
     map Some [[73], [20], [17], [29]] \<and>
   stretches 3 model (demo_world 200 payload_dr) (Received demo_request) =
     (map FetchModel model @
      map ReadModelBody [Response 200 (Some [73]), Response 200 (Some [20]),
                         Response 200 (Some [17]), Response 200 (Some [29])] @
      [InitCalled],
      Inr (AwaitInit demo_request [[73], [20], [17], [29]]))"
proof -
  have a: "map (fetch_model (demo_world 200 payload_dr)) model =
     map Some [Response 200 (Some [73]), Response 200 (Some [20]),
               Response 200 (Some [17]), Response 200 (Some [29])]"
    by (simp add: model_def demo_world_def)
  have b: "map arrayBuffer [Response 200 (Some [73]), Response 200 (Some [20]),
                    Response 200 (Some [17]), Response 200 (Some [29])] =
     map Some [[73], [20], [17], [29]]"
    by simp
  from assets_loaded_in_order[of "demo_world 200 payload_dr" model
      "[Response 200 (Some [73]), Response 200 (Some [20]),
        Response 200 (Some [17]), Response 200 (Some [29])]"
      "[[73], [20], [17], [29]]" demo_request] a b
  show ?thesis by blast
qed

text \<open>
  Claim C7, as amended. For every decode request whose audio fetch rejects, no result
  is delivered to the surface at all and the surface keeps what it showed. Nothing of
  the request survives it: a request that follows at once fetches the four model
  assets again, and when it succeeds it completes with a message of status
  \<^verbatim>\<open>complete\<close> from an engine constructed for it.
\<close>

theorem audio_rejection_then_fresh_load:
  assumes "fetch_audio w1 (data_audioSrc r1) = None"
  shows "posted (listener w1 r1) = [] \<and>
         surface_after fmt st (listener w1 r1) = st \<and>
         model_fetches (worker [(w1, r1), (w2, r2)]) = model @ model \<and>
         (stretches 5 model w2 (Received r2) =
            (es, Inr (AwaitAudioBuffer instance (Some audio))) \<and>
          decode instance audio = Some data \<and> JSON_parse w2 data = Some out \<longrightarrow>
            posted (worker [(w1, r1), (w2, r2)]) = [\<lparr>status = ''complete'', output' = out\<rparr>] \<and>
            constructions (listener w2 r2) = 1)"
proof -
  have p1: "posted (listener w1 r1) = []"
    using assms by (rule posted_nil_if_audio_rejects)
  have "posted (worker [(w1, r1), (w2, r2)]) = [\<lparr>status = ''complete'', output' = out\<rparr>] \<and>
        constructions (listener w2 r2) = 1"
    if a: "stretches 5 model w2 (Received r2) = (es, Inr (AwaitAudioBuffer instance (Some audio)))"
      and b: "decode instance audio = Some data"
      and c: "JSON_parse w2 data = Some out"
    using listener_success[OF a b c] five_stretches[OF a] p1
    by (simp add: worker_simps trace_simps)
  with p1 show ?thesis
    by (simp add: surface_after_nil worker_simps trace_simps model_fetches_listener)
qed

theorem audio_rejection_then_fresh_load_witness:
  "fetch_audio no_audio (data_audioSrc demo_request) = None \<and>
   decode demo_engine [82, 73, 70, 70] = Some ''data'' \<and>
   JSON_parse (demo_world 200 payload_dr) ''data'' = Some payload_dr \<and>
   posted (listener no_audio demo_request) = [] \<and>
   surface_after show_unit initial_app (listener no_audio demo_request) = initial_app \<and>
   model_fetches (worker [(no_audio, demo_request), (demo_world 200 payload_dr, demo_request)]) =
     model @ model \<and>
   posted (worker [(no_audio, demo_request), (demo_world 200 payload_dr, demo_request)]) =
     [\<lparr>status = ''complete'', output' = payload_dr\<rparr>] \<and>
   constructions (listener (demo_world 200 payload_dr) demo_request) = 1"
proof -
  have a: "fetch_audio no_audio (data_audioSrc demo_request) = None"
    by (simp add: no_audio_def)
  have b: "decode demo_engine [82, 73, 70, 70] = Some ''data''"
    by (rule demo_decode)
  have c: "JSON_parse (demo_world 200 payload_dr) ''data'' = Some payload_dr"
    by (rule demo_parse)
  from audio_rejection_then_fresh_load[OF a, of show_unit initial_app
      "demo_world 200 payload_dr" demo_request _ demo_engine "[82, 73, 70, 70]" "''data''"
      payload_dr]
    a b c demo_five[of 200 payload_dr]
  show ?thesis by simp
qed

text \<open>The audio fetch of the first request rejects: nothing is posted for it, and the
  second request fetches the assets and constructs an engine again.\<close>

theorem audio_rejection_counterexample:
  "posted (listener no_audio demo_request) = [] \<and>
   model_fetches (worker [(no_audio, demo_request), (demo_world 200 payload_dr, demo_request)]) =
     model @ model \<and>
   constructions (worker [(no_audio, demo_request), (demo_world 200 payload_dr, demo_request)]) = 2"
  by (simp add: worker_simps listener_unfold trace_simps model_def demo_world_def from_init_def
        demo_request_def element_def demo_engine_def no_audio_def)

text \<open>Interleaved invocations. An invocation that runs alone under the event loop
  makes the calls of \<open>listener\<close>.\<close>

lemma stretches_alone:
  "event_loop (replicate k 0) [(w, s)] =
     map (Pair 0)
       (case stretches k model w s of
          (es, Inl e) \<Rightarrow> es @ [Unhandled e]
        | (es, Inr s') \<Rightarrow> es)"
proof (induction k arbitrary: s)
  case 0
  then show ?case by simp
next
  case (Suc k)
  obtain es x where r: "resume model w s = (es, x)"
    by (cases "resume model w s")
  show ?case
  proof (cases x)
    case (Inl e)
    have "event_loop (replicate k 0) [(w, Finished)] = []"
      by (induction k) (simp_all add: resume_invocation_def)
    with Inl r show ?thesis
      by (simp add: resume_invocation_def)
  next
    case (Inr s')
    with r Suc[of s'] show ?thesis
      by (simp add: resume_invocation_def split: prod.splits sum.splits)
  qed
qed

lemma event_loop_alone:
  "event_loop (replicate 6 0) [(w, Received r)] = map (Pair 0) (listener w r)"
  by (simp only: stretches_alone listener_def outcome_def)

lemma decode_atomic_append:
  "decode_atomic xs \<Longrightarrow> decode_atomic ys \<Longrightarrow> decode_atomic (xs @ ys)"
proof (induction xs rule: decode_atomic.induct)
  case 1
  then show ?case by simp
next
  case (2 i a tr)
  then show ?case by (cases tr) auto
qed simp_all

lemma decode_atomic_calls:
  "decode_atomic (map (Pair i \<circ> FetchModel) us)"
  "decode_atomic (map (Pair i \<circ> ReadModelBody) rs)"
  by (induction us, simp_all) (induction rs, simp_all)

lemma decode_atomic_resume:
  "decode_atomic
     (map (Pair i)
        (case resume urls w s of
           (es, Inl e) \<Rightarrow> es @ [Unhandled e]
         | (es, Inr s') \<Rightarrow> es))"
  by (cases s)
    (simp_all add: decode_atomic_calls decode_atomic_append Let_def split: option.splits)

lemma decode_atomic_invocation:
  "decode_atomic (map (Pair i) (fst (resume_invocation i invs)))"
proof (cases "i < length invs")
  case True
  obtain w s where ws: "invs ! i = (w, s)"
    by (cases "invs ! i")
  from decode_atomic_resume[of i model w s] True ws show ?thesis
    by (simp add: resume_invocation_def split: prod.splits sum.splits)
next
  case False
  then show ?thesis
    by (simp add: resume_invocation_def)
qed

text \<open>
  Claim C8, as amended. The worker does not process requests one at a time: a request
  received while an earlier one is suspended at an \<^verbatim>\<open>await\<close> is started at once, and
  its \<^verbatim>\<open>decode\<close> may run before the earlier request has posted its result. What holds
  in every interleaving, for any number of requests in flight, is that a call of
  \<^verbatim>\<open>decode\<close> is followed at once by the same request's result message or by its
  rejection: no call of another request, and so no other engine invocation, falls
  between a \<^verbatim>\<open>decode\<close> and its result.
\<close>

theorem decode_and_result_atomic: "decode_atomic (event_loop sched invs)"
  by (induction sched arbitrary: invs)
    (simp_all add: decode_atomic_append decode_atomic_invocation)

theorem decode_and_result_atomic_witness:
  "decode_atomic (event_loop second_audio_first two_in_flight)"
  by (rule decode_and_result_atomic)

text \<open>Two requests received back to back, the audio of the second arriving first: the
  second calls \<^verbatim>\<open>decode\<close> before the first has posted anything. Handled one after the
  other, the same two requests do wait.\<close>

theorem second_decode_first_counterexample:
  "\<not> waits False (event_loop second_audio_first two_in_flight) \<and>
   waits False (event_loop [0, 0, 0, 0, 0, 0, 1, 1, 1, 1, 1, 1] two_in_flight)"
  by (simp add: second_audio_first_def two_in_flight_def resume_invocation_def model_def
        demo_world_def demo_request_def element_def demo_engine_def)

text \<open>
  Claim C9. For every drop event that carries at least one file, the audio source
  becomes the object URL of the first file whatever the \<^verbatim>\<open>text/uri-list\<close> data is, a
  non-empty URL included: the URL is ignored. The URL becomes the audio source only
  when the event carries no file and the URL is not empty; with no file and no URL
  the audio source stays as it was.
\<close>

theorem handleDrop_prefers_files:
  "(files e \<noteq> [] \<longrightarrow>
      audioSrc (handleDrop createObjectURL st e) = createObjectURL (hd (files e)) \<and>
      handleDrop createObjectURL st (e\<lparr>uri_list := u\<rparr>) = handleDrop createObjectURL st e) \<and>
   (files e = [] \<and> uri_list e \<noteq> '''' \<longrightarrow>
      audioSrc (handleDrop createObjectURL st e) = uri_list e) \<and>
   (files e = [] \<and> uri_list e = '''' \<longrightarrow>
      audioSrc (handleDrop createObjectURL st e) = audioSrc st)"
  by (cases "files e") (simp_all add: handleDrop_def)

theorem handleDrop_prefers_files_witness:
  "files \<lparr>uri_list = ''https://example.org/a.mp3'', files = [''one.wav'', ''two.wav'']\<rparr> \<noteq> [] \<and>
   audioSrc (handleDrop (\<lambda>f. ''blob:'' @ f) initial_app
     \<lparr>uri_list = ''https://example.org/a.mp3'', files = [''one.wav'', ''two.wav'']\<rparr>) =
     ''blob:one.wav'' \<and>
   handleDrop (\<lambda>f. ''blob:'' @ f) initial_app
     \<lparr>uri_list = '''', files = [''one.wav'', ''two.wav'']\<rparr> =
   handleDrop (\<lambda>f. ''blob:'' @ f) initial_app
     \<lparr>uri_list = ''https://example.org/a.mp3'', files = [''one.wav'', ''two.wav'']\<rparr>"
  using handleDrop_prefers_files[of
      "\<lparr>uri_list = ''https://example.org/a.mp3'', files = [''one.wav'', ''two.wav'']\<rparr>"
      "\<lambda>f. ''blob:'' @ f" initial_app "''''"]
  by simp

text \<open>
  Claim C10. For every worker message whose status is not \<^verbatim>\<open>complete\<close>, \<^verbatim>\<open>onMessage\<close>
  does nothing: the transcript shown, and the rest of the component state, stay as
  they were. Only a message whose status is exactly \<^verbatim>\<open>complete\<close> can change what is
  shown.
\<close>

theorem other_status_keeps_text:
  "(status m \<noteq> ''complete'' \<longrightarrow>
      onMessage fmt st m = Inr st \<and> dispatch fmt st m = st \<and>
      text' (dispatch fmt st m) = text' st) \<and>
   (text' (dispatch fmt st m) \<noteq> text' st \<longrightarrow> status m = ''complete'')"
  by (auto simp: dispatch_def onMessage_def)

theorem other_status_keeps_text_witness:
  "status \<lparr>status = ''error'', output' = payload_dr\<rparr> \<noteq> ''complete'' \<and>
   onMessage show_unit (initial_app\<lparr>text' := ''shown before''\<rparr>)
     \<lparr>status = ''error'', output' = payload_dr\<rparr> = Inr (initial_app\<lparr>text' := ''shown before''\<rparr>) \<and>
   text' (dispatch show_unit (initial_app\<lparr>text' := ''shown before''\<rparr>)
     \<lparr>status = ''error'', output' = payload_dr\<rparr>) = ''shown before''"
  using other_status_keeps_text[of "\<lparr>status = ''error'', output' = payload_dr\<rparr>" show_unit
      "initial_app\<lparr>text' := ''shown before''\<rparr>"]
  by (simp add: initial_app_def)

end
